theory Spec2Isabelle
  imports Main "HOL-Library.Word"
begin

section \<open>The autotune dispatch core\<close>

text \<open>
  A shallow embedding of \<^verbatim>\<open>aten/src/ATen/native/autotune/dispatch/core.cpp\<close>:
  the per-variant bandit registries (\<^verbatim>\<open>ActiveBandits<T>\<close>), the
  process-wide \<^verbatim>\<open>DispatchInterface\<close> and the per-call
  \<^verbatim>\<open>SelectImplementation<T>\<close> session.

  The C++ singletons are one explicit state record that every operation takes and
  returns. A \<^verbatim>\<open>TORCH_INTERNAL_ASSERT\<close> that fails and a map
  \<^verbatim>\<open>at\<close> that misses throw; the model returns the state reached at the throw
  together with \<open>Inl\<close> of the error, so that the writes made before the throw stay
  visible. Every call that leaves the file (the cost estimator, the methods of a bandit,
  the clock, the logging functions) appends one event to a trace kept in the state.
  A C++ member \<^verbatim>\<open>x_\<close> is the record field \<open>x_m\<close>.
\<close>

subsection \<open>Data\<close>

text \<open>\<^verbatim>\<open>size_t\<close> of a 64-bit target: seeds and counters wrap at \<open>2 ^ 64\<close>.\<close>

type_synonym size_t = "64 word"

text \<open>
  Modelled from the spec: \<^verbatim>\<open>api::AvailableBandits\<close> is declared in
  \<^verbatim>\<open>autotune/api.h\<close>. Its enumerators are the three that the file names,
  which are the strategies of the spec: the random-exploration variant, the Gaussian
  variant, and none (autotuning disabled). The \<^verbatim>\<open>default\<close> branch of each
  \<^verbatim>\<open>switch\<close> is therefore the branch of \<^verbatim>\<open>kNone\<close>.
\<close>

datatype AvailableBandits = kRandomChoice | kGaussian | kNone

text \<open>
  \<^verbatim>\<open>api::Implementation\<close>. The file names \<^verbatim>\<open>kDisabled\<close>,
  \<^verbatim>\<open>kFallback\<close> and \<^verbatim>\<open>TOTAL_COUNT\<close>; the enumerators of the
  concrete kernels are declared in \<^verbatim>\<open>autotune/api.h\<close>, so they are the type
  parameter \<open>'c\<close>.
\<close>

datatype 'c Implementation = Candidate 'c | kDisabled | kFallback | TOTAL_COUNT

text \<open>
  The faults of the file: the four assertions (named after their message or condition),
  the \<^verbatim>\<open>std::out_of_range\<close> of \<^verbatim>\<open>bandits_.at(key)\<close>, and the
  dereference of the empty pointer that \<^verbatim>\<open>bandits_[k]\<close> makes for a key
  that is not in the map.
\<close>

datatype error =
    CouldNotSelectBandit
  | ChoiceIsTotalCount
  | NoImplementationsAvailable
  | FinishCalledTwice
  | OutOfRange
  | NullBandit

datatype ('k, 'c) event =
    CostFn 'k
  | BanditCreate 'k size_t
  | BanditChoose 'k
  | BanditUpdate 'k "'c Implementation" size_t
  | BanditSummarize 'k
  | ClockNow
  | RegisterKey 'k
  | LogRecord AvailableBandits 'k "'c Implementation" size_t

text \<open>
  A bandit variant \<^verbatim>\<open>T\<close> (\<^verbatim>\<open>bandits::DrunkenBandit\<close>,
  \<^verbatim>\<open>bandits::GaussianBandit\<close>) is defined in other files. It is a parameter:
  its constructor from the cost estimates and a seed, \<^verbatim>\<open>choose()\<close>, which
  returns the choice and the new state of the instance, and \<^verbatim>\<open>update\<close>.
  \<open>'e\<close> is \<^verbatim>\<open>KernelEntryPoint::cost_estimates\<close>, \<open>'b\<close> the state of an
  instance.
\<close>

record ('e, 'b, 'c) Bandit =
  construct :: "'e \<Rightarrow> size_t \<Rightarrow> 'b"
  bandit_choose :: "'b \<Rightarrow> 'c Implementation \<times> 'b"
  bandit_update :: "'b \<Rightarrow> 'c Implementation \<Rightarrow> size_t \<Rightarrow> 'b"

text \<open>The private members of \<^verbatim>\<open>ActiveBandits<T>\<close>; \<open>'k\<close> is
  \<^verbatim>\<open>KernelEntryPoint::MapKey\<close>.\<close>

record ('k, 'b) ActiveBandits =
  next_seed_m :: size_t
  ordered_keys_m :: "'k list"
  bandits_m :: "'k \<rightharpoonup> 'b"

text \<open>
  The two registry singletons, the members of the \<^verbatim>\<open>DispatchInterface\<close>
  singleton, and the trace.

  Modelled from the spec: \<^verbatim>\<open>chosen_counts_\<close> is declared in
  \<^verbatim>\<open>dispatch/core.h\<close>. The file indexes it with
  \<^verbatim>\<open>static_cast<size_t>(choice)\<close>, increments an entry, zeroes every entry
  and returns an entry as \<^verbatim>\<open>size_t\<close>; the spec calls it an array indexed by
  implementation identifier. It is a table from identifiers to \<^verbatim>\<open>size_t\<close>
  counters.
\<close>

record ('k, 'b, 'c) world =
  DrunkenBandits :: "('k, 'b) ActiveBandits"
  GaussianBandits :: "('k, 'b) ActiveBandits"
  active_bandit_m :: AvailableBandits
  chosen_counts_m :: "'c Implementation \<Rightarrow> size_t"
  trace_m :: "('k, 'c) event list"

text \<open>
  What a \<^verbatim>\<open>KernelEntryPoint\<close> answers: \<^verbatim>\<open>key()\<close>,
  \<^verbatim>\<open>fallback()\<close>, \<^verbatim>\<open>implementations()\<close>, \<^verbatim>\<open>costs()\<close>
  and \<^verbatim>\<open>repr()\<close>.
\<close>

record ('k, 'e, 'c) entry_point =
  key :: 'k
  fallback :: bool
  implementations :: "'c Implementation list"
  costs :: 'e
  repr :: string

text \<open>
  The members of \<^verbatim>\<open>SelectImplementation<T>\<close>. Time points are nanoseconds as
  integers.
\<close>

record ('k, 'e, 'c) SelectImplementation =
  entry_point_m :: "('k, 'e, 'c) entry_point"
  bandit_type_m :: AvailableBandits
  choice_m :: "'c Implementation"
  record_duration_m :: bool
  record_finished_m :: bool
  start_m :: int

subsection \<open>ActiveBandits\<close>

text \<open>
  \<^verbatim>\<open>get(key, cost_fn)\<close>. The registry and the trace go in and come out; the
  third component is the instance that \<^verbatim>\<open>bandits_.at(key)\<close> refers to.
\<close>

definition ActiveBandits_get ::
  "('e, 'b, 'c) Bandit \<Rightarrow> ('k, 'b) ActiveBandits \<Rightarrow> ('k, 'c) event list \<Rightarrow> 'k \<Rightarrow> (unit \<Rightarrow> 'e)
    \<Rightarrow> ('k, 'b) ActiveBandits \<times> ('k, 'c) event list \<times> 'b" where
  "ActiveBandits_get T r tr k cost_fn =
     (case bandits_m r k of
        None \<Rightarrow>
          (let r1 = r\<lparr>ordered_keys_m := ordered_keys_m r @ [k]\<rparr>;
               cost_estimates = cost_fn ();
               b = construct T cost_estimates (next_seed_m r1);
               r2 = r1\<lparr>bandits_m := (bandits_m r1)(k \<mapsto> b)\<rparr>;
               r3 = r2\<lparr>next_seed_m := next_seed_m r2 + 1\<rparr>
           in (r3, tr @ [CostFn k, BanditCreate k (next_seed_m r1)], b))
      | Some b \<Rightarrow> (r, tr, b))"

text \<open>\<^verbatim>\<open>get(key)\<close>: \<^verbatim>\<open>bandits_.at(key)\<close> throws when the key is
  missing.\<close>

definition ActiveBandits_get_at :: "('k, 'b) ActiveBandits \<Rightarrow> 'k \<Rightarrow> error + 'b" where
  "ActiveBandits_get_at r k =
     (case bandits_m r k of None \<Rightarrow> Inl OutOfRange | Some b \<Rightarrow> Inr b)"

text \<open>
  \<^verbatim>\<open>summarize()\<close>: the loop over \<^verbatim>\<open>ordered_keys_\<close>. A bandit's
  \<^verbatim>\<open>summarize(k)\<close> prints; it is one event. For a key that is in the list
  and not in the map, \<^verbatim>\<open>bandits_[k]\<close> is an empty pointer and the call
  through it is undefined; the model stops there with \<open>NullBandit\<close>.
\<close>

fun summarize_loop ::
  "('k, 'b) ActiveBandits \<Rightarrow> 'k list \<Rightarrow> ('k, 'c) event list \<Rightarrow> ('k, 'c) event list \<times> (error + unit)" where
  "summarize_loop r [] tr = (tr, Inr ())"
| "summarize_loop r (k # ks) tr =
     (case bandits_m r k of
        None \<Rightarrow> (tr, Inl NullBandit)
      | Some b \<Rightarrow> summarize_loop r ks (tr @ [BanditSummarize k]))"

definition ActiveBandits_summarize ::
  "('k, 'b) ActiveBandits \<Rightarrow> ('k, 'c) event list \<Rightarrow> ('k, 'c) event list \<times> (error + unit)" where
  "ActiveBandits_summarize r tr = summarize_loop r (ordered_keys_m r) tr"

definition ActiveBandits_reset :: "('k, 'b) ActiveBandits \<Rightarrow> ('k, 'b) ActiveBandits" where
  "ActiveBandits_reset r = r\<lparr>next_seed_m := 0, ordered_keys_m := [], bandits_m := Map.empty\<rparr>"

subsection \<open>DispatchInterface\<close>

definition DispatchInterface_active_bandit :: "('k, 'b, 'c) world \<Rightarrow> AvailableBandits" where
  "DispatchInterface_active_bandit w = active_bandit_m w"

definition DispatchInterface_set_active_bandit ::
  "('k, 'b, 'c) world \<Rightarrow> AvailableBandits \<Rightarrow> ('k, 'b, 'c) world" where
  "DispatchInterface_set_active_bandit w b = w\<lparr>active_bandit_m := b\<rparr>"

text \<open>
  The \<^verbatim>\<open>switch\<close> of \<^verbatim>\<open>choose\<close>: the registry's
  \<^verbatim>\<open>get(key, cost_estimates)\<close>, then \<^verbatim>\<open>choose()\<close> on the instance
  in place. \<open>D\<close> is the random variant, \<open>G\<close> the Gaussian one.
\<close>

definition choose_switch ::
  "('e, 'b, 'c) Bandit \<Rightarrow> ('e, 'b, 'c) Bandit \<Rightarrow> ('k, 'b, 'c) world \<Rightarrow> AvailableBandits \<Rightarrow> 'k
    \<Rightarrow> (unit \<Rightarrow> 'e) \<Rightarrow> ('k, 'b, 'c) world \<times> (error + 'c Implementation)" where
  "choose_switch D G w bandit k cost_estimates =
     (case bandit of
        kRandomChoice \<Rightarrow>
          (case ActiveBandits_get D (DrunkenBandits w) (trace_m w) k cost_estimates of
             (r, tr, b) \<Rightarrow>
               (case bandit_choose D b of
                  (choice, b') \<Rightarrow>
                    (w\<lparr>DrunkenBandits := r\<lparr>bandits_m := (bandits_m r)(k \<mapsto> b')\<rparr>,
                       trace_m := tr @ [BanditChoose k]\<rparr>, Inr choice)))
      | kGaussian \<Rightarrow>
          (case ActiveBandits_get G (GaussianBandits w) (trace_m w) k cost_estimates of
             (r, tr, b) \<Rightarrow>
               (case bandit_choose G b of
                  (choice, b') \<Rightarrow>
                    (w\<lparr>GaussianBandits := r\<lparr>bandits_m := (bandits_m r)(k \<mapsto> b')\<rparr>,
                       trace_m := tr @ [BanditChoose k]\<rparr>, Inr choice)))
      | kNone \<Rightarrow> (w, Inl CouldNotSelectBandit))"

definition DispatchInterface_choose ::
  "('e, 'b, 'c) Bandit \<Rightarrow> ('e, 'b, 'c) Bandit \<Rightarrow> ('k, 'b, 'c) world \<Rightarrow> AvailableBandits \<Rightarrow> 'k
    \<Rightarrow> (unit \<Rightarrow> 'e) \<Rightarrow> ('k, 'b, 'c) world \<times> (error + 'c Implementation)" where
  "DispatchInterface_choose D G w bandit k cost_estimates =
     (case choose_switch D G w bandit k cost_estimates of
        (w1, Inl e) \<Rightarrow> (w1, Inl e)
      | (w1, Inr choice) \<Rightarrow>
          if choice = TOTAL_COUNT then (w1, Inl ChoiceIsTotalCount)
          else (w1\<lparr>chosen_counts_m := (chosen_counts_m w1)(choice := chosen_counts_m w1 choice + 1)\<rparr>,
                Inr choice))"

definition DispatchInterface_times_chosen ::
  "('k, 'b, 'c) world \<Rightarrow> 'c Implementation \<Rightarrow> error + size_t" where
  "DispatchInterface_times_chosen w choice =
     (if choice = TOTAL_COUNT then Inl ChoiceIsTotalCount else Inr (chosen_counts_m w choice))"

definition DispatchInterface_update ::
  "('e, 'b, 'c) Bandit \<Rightarrow> ('e, 'b, 'c) Bandit \<Rightarrow> ('k, 'b, 'c) world \<Rightarrow> AvailableBandits \<Rightarrow> 'k
    \<Rightarrow> 'c Implementation \<Rightarrow> size_t \<Rightarrow> ('k, 'b, 'c) world \<times> (error + unit)" where
  "DispatchInterface_update D G w bandit k choice delta_ns =
     (case bandit of
        kRandomChoice \<Rightarrow>
          (case ActiveBandits_get_at (DrunkenBandits w) k of
             Inl e \<Rightarrow> (w, Inl e)
           | Inr b \<Rightarrow>
               (w\<lparr>DrunkenBandits := (DrunkenBandits w)
                     \<lparr>bandits_m := (bandits_m (DrunkenBandits w))(k \<mapsto> bandit_update D b choice delta_ns)\<rparr>,
                  trace_m := trace_m w @ [BanditUpdate k choice delta_ns]\<rparr>, Inr ()))
      | kGaussian \<Rightarrow>
          (case ActiveBandits_get_at (GaussianBandits w) k of
             Inl e \<Rightarrow> (w, Inl e)
           | Inr b \<Rightarrow>
               (w\<lparr>GaussianBandits := (GaussianBandits w)
                     \<lparr>bandits_m := (bandits_m (GaussianBandits w))(k \<mapsto> bandit_update G b choice delta_ns)\<rparr>,
                  trace_m := trace_m w @ [BanditUpdate k choice delta_ns]\<rparr>, Inr ()))
      | kNone \<Rightarrow> (w, Inl CouldNotSelectBandit))"

definition DispatchInterface_summarize :: "('k, 'b, 'c) world \<Rightarrow> ('k, 'b, 'c) world \<times> (error + unit)" where
  "DispatchInterface_summarize w =
     (let bandit = DispatchInterface_active_bandit w in
      case bandit of
        kRandomChoice \<Rightarrow>
          (case ActiveBandits_summarize (DrunkenBandits w) (trace_m w) of
             (tr, res) \<Rightarrow> (w\<lparr>trace_m := tr\<rparr>, res))
      | kGaussian \<Rightarrow>
          (case ActiveBandits_summarize (GaussianBandits w) (trace_m w) of
             (tr, res) \<Rightarrow> (w\<lparr>trace_m := tr\<rparr>, res))
      | kNone \<Rightarrow> (w, Inl CouldNotSelectBandit))"

definition DispatchInterface_reset :: "('k, 'b, 'c) world \<Rightarrow> ('k, 'b, 'c) world" where
  "DispatchInterface_reset w =
     w\<lparr>DrunkenBandits := ActiveBandits_reset (DrunkenBandits w),
       GaussianBandits := ActiveBandits_reset (GaussianBandits w),
       active_bandit_m := kNone,
       chosen_counts_m := (\<lambda>i. 0)\<rparr>"

subsection \<open>SelectImplementation\<close>

text \<open>
  Modelled from the spec: the class declaration of \<^verbatim>\<open>SelectImplementation\<close> is
  in \<^verbatim>\<open>dispatch/core.h\<close>, so the values its members hold before the constructor
  body runs are taken from the spec's session state: the two flags are false (the start
  timestamp is present only if measurement is required, the finished flag is one-shot)
  and the start time is the clock's epoch.
\<close>

definition new_session ::
  "('k, 'e, 'c) entry_point \<Rightarrow> AvailableBandits \<Rightarrow> 'c Implementation \<Rightarrow> ('k, 'e, 'c) SelectImplementation" where
  "new_session args bt c =
     \<lparr>entry_point_m = args, bandit_type_m = bt, choice_m = c,
      record_duration_m = False, record_finished_m = False, start_m = 0\<rparr>"

text \<open>
  The constructor; \<open>now\<close> is what the clock answers if it is read. A constructor that
  throws leaves no object.
\<close>

definition SelectImplementation_new ::
  "('e, 'b, 'c) Bandit \<Rightarrow> ('e, 'b, 'c) Bandit \<Rightarrow> ('k, 'b, 'c) world \<Rightarrow> ('k, 'e, 'c) entry_point \<Rightarrow> int
    \<Rightarrow> ('k, 'b, 'c) world \<times> (error + ('k, 'e, 'c) SelectImplementation)" where
  "SelectImplementation_new D G w args now =
     (let bt = DispatchInterface_active_bandit w in
      if bt = kNone then (w, Inr (new_session args bt kDisabled))
      else if fallback args then (w, Inr (new_session args bt kFallback))
      else if length (implementations args) = 0 then (w, Inl NoImplementationsAvailable)
      else
        (case DispatchInterface_choose D G w bt (key args) (\<lambda>_. costs args) of
           (w1, Inl e) \<Rightarrow> (w1, Inl e)
         | (w1, Inr c) \<Rightarrow>
             (w1\<lparr>trace_m := trace_m w1 @ [ClockNow]\<rparr>,
              Inr ((new_session args bt c)\<lparr>record_duration_m := True, start_m := now\<rparr>))))"

definition SelectImplementation_choice :: "('k, 'e, 'c) SelectImplementation \<Rightarrow> 'c Implementation" where
  "SelectImplementation_choice s = choice_m s"

text \<open>
  \<^verbatim>\<open>finish()\<close>; \<open>end\<close> is what the clock answers. The signed nanosecond count
  becomes the \<^verbatim>\<open>size_t\<close> argument of \<^verbatim>\<open>update\<close>.
\<close>

definition SelectImplementation_finish ::
  "('e, 'b, 'c) Bandit \<Rightarrow> ('e, 'b, 'c) Bandit \<Rightarrow> ('k, 'b, 'c) world \<Rightarrow> ('k, 'e, 'c) SelectImplementation
    \<Rightarrow> int \<Rightarrow> ('k, 'b, 'c) world \<times> ('k, 'e, 'c) SelectImplementation \<times> (error + unit)" where
  "SelectImplementation_finish D G w s end =
     (if \<not> record_duration_m s then (w, s, Inr ())
      else
        (let w1 = w\<lparr>trace_m := trace_m w @ [ClockNow]\<rparr>;
             delta_ns = (word_of_int (end - start_m s) :: size_t)
         in if record_finished_m s then (w1, s, Inl FinishCalledTwice)
            else
              (let s1 = s\<lparr>record_finished_m := True\<rparr>;
                   k = key (entry_point_m s1)
               in case DispatchInterface_update D G w1 (bandit_type_m s1) k (choice_m s1) delta_ns of
                    (w2, Inl e) \<Rightarrow> (w2, s1, Inl e)
                  | (w2, Inr u) \<Rightarrow>
                      (w2\<lparr>trace_m := trace_m w2 @
                            [RegisterKey k, LogRecord (bandit_type_m s1) k (choice_m s1) delta_ns]\<rparr>,
                       s1, Inr ()))))"

subsection \<open>Session states and sequences of calls\<close>

text \<open>
  The four states of a session, read off its members: a session measures when the
  constructor took the branch that sets \<^verbatim>\<open>record_duration_\<close>, and is finished
  once \<^verbatim>\<open>finish()\<close> has set \<^verbatim>\<open>record_finished_\<close>.
\<close>

datatype session_state = Disabled | Fallback | Measuring | Finished

definition state_of :: "('k, 'e, 'c) SelectImplementation \<Rightarrow> session_state" where
  "state_of s =
     (if record_duration_m s then (if record_finished_m s then Finished else Measuring)
      else if choice_m s = kFallback then Fallback
      else Disabled)"

text \<open>
  The calls a client can make, and the state each leaves behind. A client that catches
  the exception of a failed call goes on from the state reached at the throw.
  \<^verbatim>\<open>active_bandit()\<close> and \<^verbatim>\<open>times_chosen\<close> only read.
\<close>

datatype ('k, 'e, 'c) call =
    Choose AvailableBandits 'k "unit \<Rightarrow> 'e"
  | Update AvailableBandits 'k "'c Implementation" size_t
  | TimesChosen "'c Implementation"
  | ActiveBandit
  | SetActiveBandit AvailableBandits
  | Summarize
  | Reset
  | NewSession "('k, 'e, 'c) entry_point" int
  | Finish "('k, 'e, 'c) SelectImplementation" int

fun after_call ::
  "('e, 'b, 'c) Bandit \<Rightarrow> ('e, 'b, 'c) Bandit \<Rightarrow> ('k, 'b, 'c) world \<Rightarrow> ('k, 'e, 'c) call
    \<Rightarrow> ('k, 'b, 'c) world" where
  "after_call D G w (Choose bandit k cost_fn) = fst (DispatchInterface_choose D G w bandit k cost_fn)"
| "after_call D G w (Update bandit k i delta_ns) = fst (DispatchInterface_update D G w bandit k i delta_ns)"
| "after_call D G w (TimesChosen i) = w"
| "after_call D G w ActiveBandit = w"
| "after_call D G w (SetActiveBandit b) = DispatchInterface_set_active_bandit w b"
| "after_call D G w Summarize = fst (DispatchInterface_summarize w)"
| "after_call D G w Reset = DispatchInterface_reset w"
| "after_call D G w (NewSession args now) = fst (SelectImplementation_new D G w args now)"
| "after_call D G w (Finish s end) = fst (SelectImplementation_finish D G w s end)"

fun after_calls ::
  "('e, 'b, 'c) Bandit \<Rightarrow> ('e, 'b, 'c) Bandit \<Rightarrow> ('k, 'b, 'c) world \<Rightarrow> ('k, 'e, 'c) call list
    \<Rightarrow> ('k, 'b, 'c) world" where
  "after_calls D G w [] = w"
| "after_calls D G w (c # cs) = after_calls D G (after_call D G w c) cs"

text \<open>
  Whether a call is a \<^verbatim>\<open>DispatchInterface::choose\<close> that returned a choice:
  a direct call, or the one a session's constructor makes on its measuring branch.
\<close>

fun chose ::
  "('e, 'b, 'c) Bandit \<Rightarrow> ('e, 'b, 'c) Bandit \<Rightarrow> ('k, 'b, 'c) world \<Rightarrow> ('k, 'e, 'c) call \<Rightarrow> bool" where
  "chose D G w (Choose bandit k cost_fn) =
     (case snd (DispatchInterface_choose D G w bandit k cost_fn) of Inl e \<Rightarrow> False | Inr i \<Rightarrow> True)"
| "chose D G w (NewSession args now) =
     (case snd (SelectImplementation_new D G w args now) of
        Inl e \<Rightarrow> False | Inr s \<Rightarrow> record_duration_m s)"
| "chose D G w c = False"

fun count_chosen ::
  "('e, 'b, 'c) Bandit \<Rightarrow> ('e, 'b, 'c) Bandit \<Rightarrow> ('k, 'b, 'c) world \<Rightarrow> ('k, 'e, 'c) call list \<Rightarrow> nat" where
  "count_chosen D G w [] = 0"
| "count_chosen D G w (c # cs) =
     (if chose D G w c then 1 else 0) + count_chosen D G (after_call D G w c) cs"

text \<open>
  The sum of \<^verbatim>\<open>times_chosen(i)\<close> over the kernels, in \<^verbatim>\<open>size_t\<close>
  arithmetic and as a number; and over every identifier that
  \<^verbatim>\<open>times_chosen\<close> accepts.
\<close>

definition count_of :: "('k, 'b, 'c) world \<Rightarrow> 'c Implementation \<Rightarrow> size_t" where
  "count_of w i = (case DispatchInterface_times_chosen w i of Inl e \<Rightarrow> 0 | Inr n \<Rightarrow> n)"

definition sum_times_chosen :: "('k, 'b, 'c::finite) world \<Rightarrow> size_t" where
  "sum_times_chosen w = (\<Sum>c\<in>UNIV. count_of w (Candidate c))"

definition total_times_chosen :: "('k, 'b, 'c::finite) world \<Rightarrow> nat" where
  "total_times_chosen w = (\<Sum>c\<in>UNIV. unat (count_of w (Candidate c)))"

definition sum_times_chosen_all :: "('k, 'b, 'c::finite) world \<Rightarrow> size_t" where
  "sum_times_chosen_all w = sum_times_chosen w + count_of w kDisabled + count_of w kFallback"

text \<open>Whether the registry of a bandit variant holds an instance for a key.\<close>

definition has_bandit :: "('k, 'b, 'c) world \<Rightarrow> AvailableBandits \<Rightarrow> 'k \<Rightarrow> bool" where
  "has_bandit w bandit k =
     (case bandit of
        kRandomChoice \<Rightarrow> bandits_m (DrunkenBandits w) k \<noteq> None
      | kGaussian \<Rightarrow> bandits_m (GaussianBandits w) k \<noteq> None
      | kNone \<Rightarrow> False)"

text \<open>
  The registry singleton and the bandit variant that the \<^verbatim>\<open>switch\<close> of
  \<^verbatim>\<open>choose\<close> and \<^verbatim>\<open>update\<close> selects for
  \<^verbatim>\<open>kRandomChoice\<close> and for \<^verbatim>\<open>kGaussian\<close>. For
  \<^verbatim>\<open>kNone\<close> the \<^verbatim>\<open>switch\<close> selects none; the two functions
  are used for the other two values only.
\<close>

definition registry_of :: "('k, 'b, 'c) world \<Rightarrow> AvailableBandits \<Rightarrow> ('k, 'b) ActiveBandits" where
  "registry_of w bandit =
     (case bandit of
        kRandomChoice \<Rightarrow> DrunkenBandits w
      | kGaussian \<Rightarrow> GaussianBandits w
      | kNone \<Rightarrow> GaussianBandits w)"

definition variant_of ::
  "('e, 'b, 'c) Bandit \<Rightarrow> ('e, 'b, 'c) Bandit \<Rightarrow> AvailableBandits \<Rightarrow> ('e, 'b, 'c) Bandit" where
  "variant_of D G bandit =
     (case bandit of kRandomChoice \<Rightarrow> D | kGaussian \<Rightarrow> G | kNone \<Rightarrow> G)"

subsection \<open>Example inputs\<close>

text \<open>
  Concrete collaborators for evaluating the model: three kernels, a bandit whose state
  is the list of the durations it was updated with and whose \<^verbatim>\<open>choose()\<close>
  always answers the same identifier, and a state with empty registries.
\<close>

datatype kernel = K0 | K1 | K2

instance kernel :: finite
proof
  have all: "(UNIV :: kernel set) = {K0, K1, K2}"
    by (auto intro: kernel.exhaust)
  show "finite (UNIV :: kernel set)"
    by (simp add: all)
qed

definition const_bandit :: "kernel Implementation \<Rightarrow> (nat list, size_t list, kernel) Bandit" where
  "const_bandit c =
     \<lparr>construct = (\<lambda>cost_estimates seed. []),
      bandit_choose = (\<lambda>b. (c, b)),
      bandit_update = (\<lambda>b i delta_ns. b @ [delta_ns])\<rparr>"

definition empty_registry :: "(nat, size_t list) ActiveBandits" where
  "empty_registry = \<lparr>next_seed_m = 0, ordered_keys_m = [], bandits_m = Map.empty\<rparr>"

definition empty_world :: "AvailableBandits \<Rightarrow> (nat, size_t list, kernel) world" where
  "empty_world a =
     \<lparr>DrunkenBandits = empty_registry, GaussianBandits = empty_registry,
      active_bandit_m = a, chosen_counts_m = (\<lambda>i. 0), trace_m = []\<rparr>"

definition example_site :: "bool \<Rightarrow> kernel Implementation list \<Rightarrow> (nat, nat list, kernel) entry_point" where
  "example_site fb impls =
     \<lparr>key = 7, fallback = fb, implementations = impls, costs = [10, 20, 30], repr = ''K''\<rparr>"

text \<open>
  The session that the constructor makes for \<open>example_site False [Candidate K0]\<close> at
  time 100, when the random variant is active and its \<^verbatim>\<open>choose()\<close> answers
  \<open>Candidate K0\<close>.
\<close>

definition example_session :: "(nat, nat list, kernel) SelectImplementation" where
  "example_session =
     \<lparr>entry_point_m = example_site False [Candidate K0], bandit_type_m = kRandomChoice,
      choice_m = Candidate K0, record_duration_m = True, record_finished_m = False,
      start_m = 100\<rparr>"

section \<open>Properties\<close>

subsection \<open>The registry\<close>

lemmas eval_defs = DispatchInterface_choose_def choose_switch_def ActiveBandits_get_def
  DispatchInterface_update_def ActiveBandits_get_at_def DispatchInterface_times_chosen_def
  DispatchInterface_active_bandit_def DispatchInterface_reset_def ActiveBandits_reset_def
  DispatchInterface_set_active_bandit_def
  SelectImplementation_new_def SelectImplementation_finish_def new_session_def
  const_bandit_def empty_world_def empty_registry_def example_site_def Let_def

lemma get_present:
  "bandits_m r k = Some b \<Longrightarrow> ActiveBandits_get T r tr k cost_fn = (r, tr, b)"
  by (simp add: ActiveBandits_get_def)

lemma get_absent:
  "bandits_m r k = None \<Longrightarrow>
   ActiveBandits_get T r tr k cost_fn =
     (r\<lparr>ordered_keys_m := ordered_keys_m r @ [k],
        bandits_m := (bandits_m r)(k \<mapsto> construct T (cost_fn ()) (next_seed_m r)),
        next_seed_m := next_seed_m r + 1\<rparr>,
      tr @ [CostFn k, BanditCreate k (next_seed_m r)],
      construct T (cost_fn ()) (next_seed_m r))"
  by (simp add: ActiveBandits_get_def Let_def)

subsection \<open>Sessions that do not measure\<close>

lemmas session_defs = SelectImplementation_new_def SelectImplementation_finish_def
  SelectImplementation_choice_def new_session_def state_of_def DispatchInterface_active_bandit_def

text \<open>
  C3. A session constructed while the active bandit is \<^verbatim>\<open>kNone\<close> is
  Disabled with the choice \<^verbatim>\<open>kDisabled\<close>; a session of a fallback call site
  constructed while a bandit is active is Fallback. In both cases the constructor
  returns the state it was given (no clock read, no registry entry, no event), and
  \<^verbatim>\<open>finish()\<close> on that session, in whatever state \<open>w'\<close> it is called,
  returns that state and the session unchanged: no update and no log record.
\<close>

theorem disabled_and_fallback_sessions:
  "(DispatchInterface_active_bandit w = kNone \<longrightarrow>
      SelectImplementation_new D G w args now = (w, Inr (new_session args kNone kDisabled)) \<and>
      state_of (new_session args kNone kDisabled) = Disabled \<and>
      SelectImplementation_choice (new_session args kNone kDisabled) = kDisabled \<and>
      SelectImplementation_finish D G w' (new_session args kNone kDisabled) end =
        (w', new_session args kNone kDisabled, Inr ())) \<and>
   (DispatchInterface_active_bandit w \<noteq> kNone \<and> fallback args \<longrightarrow>
      SelectImplementation_new D G w args now =
        (w, Inr (new_session args (DispatchInterface_active_bandit w) kFallback)) \<and>
      state_of (new_session args (DispatchInterface_active_bandit w) kFallback) = Fallback \<and>
      SelectImplementation_finish D G w' (new_session args (DispatchInterface_active_bandit w) kFallback) end =
        (w', new_session args (DispatchInterface_active_bandit w) kFallback, Inr ()))"
  by (simp add: session_defs)

theorem disabled_and_fallback_sessions_witness:
  "SelectImplementation_new (const_bandit (Candidate K0)) (const_bandit (Candidate K1))
     (empty_world kNone) (example_site False [Candidate K0]) 100 =
     (empty_world kNone, Inr (new_session (example_site False [Candidate K0]) kNone kDisabled)) \<and>
   SelectImplementation_finish (const_bandit (Candidate K0)) (const_bandit (Candidate K1))
     (empty_world kGaussian) (new_session (example_site False [Candidate K0]) kNone kDisabled) 250 =
     (empty_world kGaussian, new_session (example_site False [Candidate K0]) kNone kDisabled, Inr ()) \<and>
   SelectImplementation_new (const_bandit (Candidate K0)) (const_bandit (Candidate K1))
     (empty_world kGaussian) (example_site True []) 100 =
     (empty_world kGaussian, Inr (new_session (example_site True []) kGaussian kFallback)) \<and>
   SelectImplementation_finish (const_bandit (Candidate K0)) (const_bandit (Candidate K1))
     (empty_world kGaussian) (new_session (example_site True []) kGaussian kFallback) 250 =
     (empty_world kGaussian, new_session (example_site True []) kGaussian kFallback, Inr ())"
  using disabled_and_fallback_sessions [of "empty_world kNone" "const_bandit (Candidate K0)"
      "const_bandit (Candidate K1)" "example_site False [Candidate K0]" 100
      "empty_world kGaussian" 250]
    disabled_and_fallback_sessions [of "empty_world kGaussian" "const_bandit (Candidate K0)"
      "const_bandit (Candidate K1)" "example_site True []" 100 "empty_world kGaussian" 250]
  by (simp add: DispatchInterface_active_bandit_def empty_world_def example_site_def)

text \<open>
  C8. With a bandit active, a call site that is not fallback-only and declares no
  implementation makes the constructor fail with the assertion; the state is the one
  it was given, so no \<^verbatim>\<open>choose\<close> was routed, no clock was read and no
  registry entry was made.
\<close>

theorem no_candidates_fault:
  assumes "DispatchInterface_active_bandit w \<noteq> kNone"
    and "\<not> fallback args"
    and "implementations args = []"
  shows "SelectImplementation_new D G w args now = (w, Inl NoImplementationsAvailable)"
  using assms by (simp add: SelectImplementation_new_def)

theorem no_candidates_fault_witness:
  "DispatchInterface_active_bandit (empty_world kRandomChoice) \<noteq> kNone \<and>
   \<not> fallback (example_site False []) \<and>
   implementations (example_site False []) = [] \<and>
   SelectImplementation_new (const_bandit (Candidate K0)) (const_bandit (Candidate K1))
     (empty_world kRandomChoice) (example_site False []) 100 =
     (empty_world kRandomChoice, Inl NoImplementationsAvailable)"
  using no_candidates_fault [of "empty_world kRandomChoice" "example_site False []"
      "const_bandit (Candidate K0)" "const_bandit (Candidate K1)" 100]
  by (simp add: DispatchInterface_active_bandit_def empty_world_def example_site_def)

subsection \<open>The dispatch interface\<close>

text \<open>
  C7. What \<^verbatim>\<open>DispatchInterface::choose\<close> returns to its caller is never
  \<^verbatim>\<open>TOTAL_COUNT\<close>; when the bandit's own \<^verbatim>\<open>choose()\<close> produces
  \<^verbatim>\<open>TOTAL_COUNT\<close>, the call fails with the assertion and no counter changes.
\<close>

theorem choose_never_total_count:
  "snd (DispatchInterface_choose D G w bandit k cost_fn) \<noteq> Inr TOTAL_COUNT \<and>
   (snd (choose_switch D G w bandit k cost_fn) = Inr TOTAL_COUNT \<longrightarrow>
      snd (DispatchInterface_choose D G w bandit k cost_fn) = Inl ChoiceIsTotalCount \<and>
      chosen_counts_m (fst (DispatchInterface_choose D G w bandit k cost_fn)) = chosen_counts_m w)"
  by (cases bandit)
     (auto simp: DispatchInterface_choose_def choose_switch_def ActiveBandits_get_def Let_def
           split: prod.splits sum.splits option.splits)

theorem choose_never_total_count_witness:
  "snd (choose_switch (const_bandit TOTAL_COUNT) (const_bandit (Candidate K0))
          (empty_world kRandomChoice) kRandomChoice 7 (\<lambda>_. [10, 20, 30])) = Inr TOTAL_COUNT \<and>
   snd (DispatchInterface_choose (const_bandit TOTAL_COUNT) (const_bandit (Candidate K0))
          (empty_world kRandomChoice) kRandomChoice 7 (\<lambda>_. [10, 20, 30])) = Inl ChoiceIsTotalCount"
  using choose_never_total_count [of "const_bandit TOTAL_COUNT" "const_bandit (Candidate K0)"
      "empty_world kRandomChoice" kRandomChoice 7 "\<lambda>_. [10, 20, 30]"]
  by (simp add: choose_switch_def ActiveBandits_get_def const_bandit_def empty_world_def
      empty_registry_def)

text \<open>
  C4. After \<^verbatim>\<open>DispatchInterface::reset()\<close> the active bandit is
  \<^verbatim>\<open>kNone\<close>, \<^verbatim>\<open>times_chosen(i)\<close> is 0 for every identifier it
  accepts, both registries have no instance, no key and the seed counter 0, and a
  \<^verbatim>\<open>choose\<close> with either bandit for any key calls the cost estimator of
  that key again and constructs an instance with seed 0.
\<close>

theorem reset_clears:
  "DispatchInterface_active_bandit (DispatchInterface_reset w) = kNone \<and>
   DispatchInterface_times_chosen (DispatchInterface_reset w) i =
     (if i = TOTAL_COUNT then Inl ChoiceIsTotalCount else Inr 0) \<and>
   DrunkenBandits (DispatchInterface_reset w) =
     \<lparr>next_seed_m = 0, ordered_keys_m = [], bandits_m = Map.empty\<rparr> \<and>
   GaussianBandits (DispatchInterface_reset w) =
     \<lparr>next_seed_m = 0, ordered_keys_m = [], bandits_m = Map.empty\<rparr> \<and>
   trace_m (fst (DispatchInterface_choose D G (DispatchInterface_reset w) kRandomChoice k cost_fn)) =
     trace_m w @ [CostFn k, BanditCreate k 0, BanditChoose k] \<and>
   trace_m (fst (DispatchInterface_choose D G (DispatchInterface_reset w) kGaussian k cost_fn)) =
     trace_m w @ [CostFn k, BanditCreate k 0, BanditChoose k]"
  by (simp add: DispatchInterface_reset_def DispatchInterface_active_bandit_def
      DispatchInterface_times_chosen_def ActiveBandits_reset_def choose_switch_def
      DispatchInterface_choose_def ActiveBandits_get_def Let_def split: prod.splits)

text \<open>
  C9. The active bandit after a call is the one before it, for every call except
  \<^verbatim>\<open>set_active_bandit\<close>, which stores its argument, and
  \<^verbatim>\<open>reset\<close>, which stores \<^verbatim>\<open>kNone\<close>; in particular
  \<^verbatim>\<open>choose\<close>, \<^verbatim>\<open>update\<close> and \<^verbatim>\<open>times_chosen\<close> leave it
  as it was, whether they return or throw.
\<close>

theorem active_bandit_frame:
  "DispatchInterface_active_bandit (after_call D G w c) =
     (case c of
        SetActiveBandit b \<Rightarrow> b
      | Reset \<Rightarrow> kNone
      | _ \<Rightarrow> DispatchInterface_active_bandit w)"
  by (cases c)
     (auto simp: DispatchInterface_active_bandit_def DispatchInterface_choose_def
        choose_switch_def ActiveBandits_get_def DispatchInterface_update_def
        ActiveBandits_get_at_def DispatchInterface_set_active_bandit_def
        DispatchInterface_summarize_def DispatchInterface_reset_def
        SelectImplementation_new_def SelectImplementation_finish_def Let_def
        split: prod.splits sum.splits option.splits AvailableBandits.splits)

text \<open>
  C10. \<^verbatim>\<open>DispatchInterface::summarize()\<close> called while the active bandit is
  \<^verbatim>\<open>kNone\<close> fails with the assertion "Could not select bandit." and reports
  nothing.
\<close>

theorem summarize_disabled_fault:
  assumes "DispatchInterface_active_bandit w = kNone"
  shows "DispatchInterface_summarize w = (w, Inl CouldNotSelectBandit)"
  using assms by (simp add: DispatchInterface_summarize_def)

theorem summarize_disabled_fault_witness:
  "DispatchInterface_active_bandit (empty_world kNone) = kNone \<and>
   DispatchInterface_summarize (empty_world kNone) = (empty_world kNone, Inl CouldNotSelectBandit)"
  using summarize_disabled_fault [of "empty_world kNone"]
  by (simp add: DispatchInterface_active_bandit_def empty_world_def)

subsection \<open>Counting the choices\<close>

lemma choose_switch_effect:
  "chosen_counts_m (fst (choose_switch D G w bandit k cost_fn)) = chosen_counts_m w \<and>
   (case snd (choose_switch D G w bandit k cost_fn) of
      Inl e \<Rightarrow> True
    | Inr i \<Rightarrow> (\<exists>b. i = fst (bandit_choose D b)) \<or> (\<exists>b. i = fst (bandit_choose G b)))"
  by (cases bandit)
     (auto simp: choose_switch_def split: prod.splits, (metis fst_conv)+)

lemma choose_effect:
  "(case snd (DispatchInterface_choose D G w bandit k cost_fn) of
      Inl e \<Rightarrow> chosen_counts_m (fst (DispatchInterface_choose D G w bandit k cost_fn)) = chosen_counts_m w
    | Inr i \<Rightarrow>
        i \<noteq> TOTAL_COUNT \<and>
        ((\<exists>b. i = fst (bandit_choose D b)) \<or> (\<exists>b. i = fst (bandit_choose G b))) \<and>
        chosen_counts_m (fst (DispatchInterface_choose D G w bandit k cost_fn)) =
          (chosen_counts_m w)(i := chosen_counts_m w i + 1))"
  using choose_switch_effect [of D G w bandit k cost_fn]
  by (auto simp: DispatchInterface_choose_def split: prod.splits sum.splits)

lemma update_counts:
  "chosen_counts_m (fst (DispatchInterface_update D G w bandit k i delta_ns)) = chosen_counts_m w"
  by (cases bandit) (auto simp: DispatchInterface_update_def split: sum.splits)

lemma summarize_counts:
  "chosen_counts_m (fst (DispatchInterface_summarize w)) = chosen_counts_m w"
  by (auto simp: DispatchInterface_summarize_def Let_def
      split: AvailableBandits.splits prod.splits)

lemma finish_counts:
  "chosen_counts_m (fst (SelectImplementation_finish D G w s end)) = chosen_counts_m w"
proof -
  have "chosen_counts_m w' = chosen_counts_m w"
    if "DispatchInterface_update D G (w\<lparr>trace_m := tr\<rparr>) bandit k i d = (w', res)"
    for tr bandit k i d w' res
    using update_counts [of D G "w\<lparr>trace_m := tr\<rparr>" bandit k i d] that by simp
  then show ?thesis
    by (auto simp: SelectImplementation_finish_def Let_def split: prod.splits sum.splits)
qed

lemma new_session_counts:
  "(case snd (SelectImplementation_new D G w args now) of
      Inl e \<Rightarrow> chosen_counts_m (fst (SelectImplementation_new D G w args now)) = chosen_counts_m w
    | Inr s \<Rightarrow>
        if record_duration_m s then
          choice_m s \<noteq> TOTAL_COUNT \<and>
          ((\<exists>b. choice_m s = fst (bandit_choose D b)) \<or> (\<exists>b. choice_m s = fst (bandit_choose G b))) \<and>
          chosen_counts_m (fst (SelectImplementation_new D G w args now)) =
            (chosen_counts_m w)(choice_m s := chosen_counts_m w (choice_m s) + 1)
        else chosen_counts_m (fst (SelectImplementation_new D G w args now)) = chosen_counts_m w)"
  using choose_effect [of D G w "DispatchInterface_active_bandit w" "key args" "\<lambda>_. costs args"]
  by (auto simp: SelectImplementation_new_def new_session_def Let_def
      split: prod.splits sum.splits)

lemma after_call_counts:
  assumes "c \<noteq> Reset"
  shows "if chose D G w c
         then \<exists>i. i \<noteq> TOTAL_COUNT \<and>
                ((\<exists>b. i = fst (bandit_choose D b)) \<or> (\<exists>b. i = fst (bandit_choose G b))) \<and>
                chosen_counts_m (after_call D G w c) = (chosen_counts_m w)(i := chosen_counts_m w i + 1)
         else chosen_counts_m (after_call D G w c) = chosen_counts_m w"
proof (cases c)
  case (Choose bandit k cost_fn)
  with choose_effect [of D G w bandit k cost_fn] show ?thesis
    by (auto split: sum.splits)
next
  case (NewSession args now)
  with new_session_counts [of D G w args now] show ?thesis
    by (auto split: sum.splits if_splits)
qed (use assms in \<open>simp_all add: update_counts summarize_counts finish_counts
      DispatchInterface_set_active_bandit_def\<close>)

lemma sum_times_chosen_counts:
  "sum_times_chosen w = (\<Sum>c\<in>UNIV. chosen_counts_m w (Candidate c))"
  "total_times_chosen w = (\<Sum>c\<in>UNIV. unat (chosen_counts_m w (Candidate c)))"
  "sum_times_chosen_all w =
     (\<Sum>c\<in>UNIV. chosen_counts_m w (Candidate c)) + chosen_counts_m w kDisabled +
     chosen_counts_m w kFallback"
  by (simp_all add: sum_times_chosen_def total_times_chosen_def sum_times_chosen_all_def
      count_of_def DispatchInterface_times_chosen_def)

lemma sum_bump:
  fixes f g :: "'c::finite Implementation \<Rightarrow> size_t"
  assumes "g = f(Candidate c0 := f (Candidate c0) + 1)"
  shows "(\<Sum>c\<in>UNIV. g (Candidate c)) = (\<Sum>c\<in>UNIV. f (Candidate c)) + 1"
proof -
  have "(\<Sum>c\<in>UNIV. g (Candidate c)) = g (Candidate c0) + (\<Sum>c\<in>UNIV - {c0}. g (Candidate c))"
    by (rule sum.remove) simp_all
  moreover have "(\<Sum>c\<in>UNIV - {c0}. g (Candidate c)) = (\<Sum>c\<in>UNIV - {c0}. f (Candidate c))"
    by (rule sum.cong) (simp_all add: assms)
  moreover have "(\<Sum>c\<in>UNIV. f (Candidate c)) =
        f (Candidate c0) + (\<Sum>c\<in>UNIV - {c0}. f (Candidate c))"
    by (rule sum.remove) simp_all
  ultimately show ?thesis
    by (simp add: assms)
qed

lemma sum_no_bump:
  fixes f g :: "'c::finite Implementation \<Rightarrow> size_t"
  assumes "g = f(i := v)" and "i = kDisabled \<or> i = kFallback"
  shows "(\<Sum>c\<in>UNIV. g (Candidate c)) = (\<Sum>c\<in>UNIV. f (Candidate c))"
  using assms by (intro sum.cong) auto

lemma total_bump:
  fixes f g :: "'c::finite Implementation \<Rightarrow> size_t"
  assumes "g = f(Candidate c0 := f (Candidate c0) + 1)"
    and "(\<Sum>c\<in>UNIV. unat (f (Candidate c))) + 1 < 2 ^ 64"
  shows "(\<Sum>c\<in>UNIV. unat (g (Candidate c))) = (\<Sum>c\<in>UNIV. unat (f (Candidate c))) + 1"
proof -
  have split: "(\<Sum>c\<in>UNIV. unat (f (Candidate c))) =
               unat (f (Candidate c0)) + (\<Sum>c\<in>UNIV - {c0}. unat (f (Candidate c)))"
    by (rule sum.remove) simp_all
  with assms(2) have "unat (f (Candidate c0)) + 1 < 2 ^ 64"
    by simp
  then have bump: "unat (g (Candidate c0)) = unat (f (Candidate c0)) + 1"
    by (simp add: assms(1) unat_word_ariths)
  have "(\<Sum>c\<in>UNIV. unat (g (Candidate c))) =
        unat (g (Candidate c0)) + (\<Sum>c\<in>UNIV - {c0}. unat (g (Candidate c)))"
    by (rule sum.remove) simp_all
  moreover have "(\<Sum>c\<in>UNIV - {c0}. unat (g (Candidate c))) =
        (\<Sum>c\<in>UNIV - {c0}. unat (f (Candidate c)))"
    by (rule sum.cong) (simp_all add: assms(1))
  ultimately show ?thesis
    using bump split by simp
qed

lemma after_call_sum_all:
  fixes w :: "('k, 'b, 'c::finite) world"
  assumes "c \<noteq> Reset"
  shows "sum_times_chosen_all (after_call D G w c) =
         sum_times_chosen_all w + (if chose D G w c then 1 else 0)"
proof (cases "chose D G w c")
  case True
  with after_call_counts [OF assms, of D G w] obtain i where
    i: "i \<noteq> TOTAL_COUNT" and
    upd: "chosen_counts_m (after_call D G w c) = (chosen_counts_m w)(i := chosen_counts_m w i + 1)"
    by auto
  show ?thesis
  proof (cases i)
    case (Candidate c0)
    with upd sum_bump [of "chosen_counts_m (after_call D G w c)" "chosen_counts_m w" c0] True
    show ?thesis
      by (simp add: sum_times_chosen_counts)
  next
    case kDisabled
    with upd sum_no_bump [of "chosen_counts_m (after_call D G w c)" "chosen_counts_m w" i] True
    show ?thesis
      by (simp add: sum_times_chosen_counts)
  next
    case kFallback
    with upd sum_no_bump [of "chosen_counts_m (after_call D G w c)" "chosen_counts_m w" i] True
    show ?thesis
      by (simp add: sum_times_chosen_counts)
  next
    case TOTAL_COUNT
    with i show ?thesis
      by simp
  qed
next
  case False
  with after_call_counts [OF assms, of D G w] show ?thesis
    by (simp add: sum_times_chosen_counts)
qed

lemma after_call_real:
  assumes "c \<noteq> Reset"
    and "\<forall>b. fst (bandit_choose D b) \<notin> {kDisabled, kFallback}"
    and "\<forall>b. fst (bandit_choose G b) \<notin> {kDisabled, kFallback}"
    and "chose D G w c"
  shows "\<exists>c0. chosen_counts_m (after_call D G w c) =
           (chosen_counts_m w)(Candidate c0 := chosen_counts_m w (Candidate c0) + 1)"
proof -
  from after_call_counts [OF assms(1), of D G w] assms(4) obtain i where
    i: "i \<noteq> TOTAL_COUNT" and
    src: "(\<exists>b. i = fst (bandit_choose D b)) \<or> (\<exists>b. i = fst (bandit_choose G b))" and
    upd: "chosen_counts_m (after_call D G w c) = (chosen_counts_m w)(i := chosen_counts_m w i + 1)"
    by auto
  from src assms(2,3) have "i \<noteq> kDisabled" "i \<noteq> kFallback"
    by (metis insertCI)+
  with i obtain c0 where "i = Candidate c0"
    by (cases i) auto
  with upd show ?thesis
    by auto
qed

lemma after_calls_sum_all:
  fixes w :: "('k, 'b, 'c::finite) world"
  assumes "Reset \<notin> set cs"
  shows "sum_times_chosen_all (after_calls D G w cs) =
         sum_times_chosen_all w + of_nat (count_chosen D G w cs)"
  using assms
proof (induction cs arbitrary: w)
  case Nil
  then show ?case by simp
next
  case (Cons c cs)
  then have "c \<noteq> Reset" and "Reset \<notin> set cs"
    by auto
  with Cons.IH [of "after_call D G w c"] after_call_sum_all [of c D G w] show ?case
    by simp
qed

lemma after_calls_sum_real:
  fixes w :: "('k, 'b, 'c::finite) world"
  assumes "Reset \<notin> set cs"
    and D: "\<forall>b. fst (bandit_choose D b) \<notin> {kDisabled, kFallback}"
    and G: "\<forall>b. fst (bandit_choose G b) \<notin> {kDisabled, kFallback}"
  shows "sum_times_chosen (after_calls D G w cs) =
         sum_times_chosen w + of_nat (count_chosen D G w cs)"
  using assms(1)
proof (induction cs arbitrary: w)
  case Nil
  then show ?case by simp
next
  case (Cons c cs)
  then have c: "c \<noteq> Reset" and cs: "Reset \<notin> set cs"
    by auto
  have step: "sum_times_chosen (after_call D G w c) =
              sum_times_chosen w + (if chose D G w c then 1 else 0)"
  proof (cases "chose D G w c")
    case True
    from after_call_real [OF c D G True] obtain c0 where
      "chosen_counts_m (after_call D G w c) =
         (chosen_counts_m w)(Candidate c0 := chosen_counts_m w (Candidate c0) + 1)" ..
    from sum_bump [OF this] True show ?thesis
      by (simp add: sum_times_chosen_counts)
  next
    case False
    with after_call_counts [OF c, of D G w] show ?thesis
      by (simp add: sum_times_chosen_counts)
  qed
  with Cons.IH [OF cs, of "after_call D G w c"] show ?case
    by simp
qed

lemma after_calls_total:
  fixes w :: "('k, 'b, 'c::finite) world"
  assumes "Reset \<notin> set cs"
    and D: "\<forall>b. fst (bandit_choose D b) \<notin> {kDisabled, kFallback}"
    and G: "\<forall>b. fst (bandit_choose G b) \<notin> {kDisabled, kFallback}"
    and "total_times_chosen w + count_chosen D G w cs < 2 ^ 64"
  shows "total_times_chosen (after_calls D G w cs) =
         total_times_chosen w + count_chosen D G w cs"
  using assms(1,4)
proof (induction cs arbitrary: w)
  case Nil
  then show ?case by simp
next
  case (Cons c cs)
  then have c: "c \<noteq> Reset" and cs: "Reset \<notin> set cs"
    by auto
  let ?n = "if chose D G w c then 1 else 0 :: nat"
  from Cons.prems(2) have bound:
    "total_times_chosen w + ?n + count_chosen D G (after_call D G w c) cs < 2 ^ 64"
    by simp
  have step: "total_times_chosen (after_call D G w c) = total_times_chosen w + ?n"
  proof (cases "chose D G w c")
    case True
    with bound have small: "(\<Sum>c\<in>UNIV. unat (chosen_counts_m w (Candidate c))) + 1 < 2 ^ 64"
      by (simp add: sum_times_chosen_counts)
    from after_call_real [OF c D G True] obtain c0 where
      "chosen_counts_m (after_call D G w c) =
         (chosen_counts_m w)(Candidate c0 := chosen_counts_m w (Candidate c0) + 1)" ..
    from total_bump [OF this small] True show ?thesis
      by (simp add: sum_times_chosen_counts)
  next
    case False
    with after_call_counts [OF c, of D G w] show ?thesis
      by (simp add: sum_times_chosen_counts)
  qed
  with bound Cons.IH [OF cs, of "after_call D G w c"] show ?case
    by simp
qed

text \<open>
  C6. Over any sequence of calls that contains no \<^verbatim>\<open>reset\<close>, the counters
  grow by the number of \<^verbatim>\<open>choose\<close> calls that returned a choice (made
  directly or by a session's constructor); a \<^verbatim>\<open>choose\<close> that throws counts
  nothing. In \<^verbatim>\<open>size_t\<close> arithmetic the sum of \<^verbatim>\<open>times_chosen\<close>
  over every identifier it accepts grows by exactly that number. When the bandits'
  \<^verbatim>\<open>choose()\<close> never answers \<^verbatim>\<open>kDisabled\<close> or
  \<^verbatim>\<open>kFallback\<close>, so does the sum over the kernels alone, and as long as the
  total stays below \<open>2 ^ 64\<close> no counter wraps: the sum of the values is the count.
  Starting from counters that are all 0, the sum equals the number of such calls.
\<close>

theorem count_conservation:
  fixes w :: "('k, 'b, 'c::finite) world"
  assumes "Reset \<notin> set cs"
  shows
    "sum_times_chosen_all (after_calls D G w cs) =
       sum_times_chosen_all w + of_nat (count_chosen D G w cs) \<and>
     ((\<forall>b. fst (bandit_choose D b) \<notin> {kDisabled, kFallback}) \<and>
      (\<forall>b. fst (bandit_choose G b) \<notin> {kDisabled, kFallback}) \<longrightarrow>
        sum_times_chosen (after_calls D G w cs) =
          sum_times_chosen w + of_nat (count_chosen D G w cs) \<and>
        (total_times_chosen w + count_chosen D G w cs < 2 ^ 64 \<longrightarrow>
           total_times_chosen (after_calls D G w cs) =
             total_times_chosen w + count_chosen D G w cs))"
  using after_calls_sum_all [OF assms] after_calls_sum_real [OF assms]
    after_calls_total [OF assms]
  by blast

theorem count_conservation_witness:
  "Reset \<notin> set [Choose kRandomChoice 7 (\<lambda>_. [10, 20, 30]),
                 NewSession (example_site False [Candidate K2]) 100,
                 Choose kNone 7 (\<lambda>_. [10, 20, 30])] \<and>
   count_chosen (const_bandit (Candidate K0)) (const_bandit (Candidate K2)) (empty_world kGaussian)
     [Choose kRandomChoice 7 (\<lambda>_. [10, 20, 30]),
      NewSession (example_site False [Candidate K2]) 100,
      Choose kNone 7 (\<lambda>_. [10, 20, 30])] = 2 \<and>
   total_times_chosen (empty_world kGaussian) = 0 \<and>
   total_times_chosen
     (after_calls (const_bandit (Candidate K0)) (const_bandit (Candidate K2)) (empty_world kGaussian)
        [Choose kRandomChoice 7 (\<lambda>_. [10, 20, 30]),
         NewSession (example_site False [Candidate K2]) 100,
         Choose kNone 7 (\<lambda>_. [10, 20, 30])]) = 2"
proof -
  let ?cs = "[Choose kRandomChoice 7 (\<lambda>_. [10, 20, 30]),
              NewSession (example_site False [Candidate K2]) 100,
              Choose kNone 7 (\<lambda>_. [10, 20, 30])]"
  let ?D = "const_bandit (Candidate K0)"
  let ?G = "const_bandit (Candidate K2)"
  have no_reset: "Reset \<notin> set ?cs"
    by simp
  have n: "count_chosen ?D ?G (empty_world kGaussian) ?cs = 2"
    by (simp add: eval_defs)
  have zero: "total_times_chosen (empty_world kGaussian) = 0"
    by (simp add: total_times_chosen_def count_of_def DispatchInterface_times_chosen_def
        empty_world_def)
  have real: "\<forall>b. fst (bandit_choose ?D b) \<notin> {kDisabled, kFallback}"
    "\<forall>b. fst (bandit_choose ?G b) \<notin> {kDisabled, kFallback}"
    by (simp_all add: const_bandit_def)
  from count_conservation [OF no_reset, of ?D ?G "empty_world kGaussian"] real n zero
  show ?thesis
    by simp
qed

subsection \<open>Finishing a session\<close>

lemma choose_switch_has_bandit:
  "has_bandit w b k \<Longrightarrow> has_bandit (fst (choose_switch D G w bandit k' cost_fn)) b k"
  by (cases bandit; cases b)
     (auto simp: has_bandit_def choose_switch_def ActiveBandits_get_def Let_def
        split: prod.splits option.splits)

lemma choose_switch_creates:
  "snd (choose_switch D G w bandit k cost_fn) = Inr i \<Longrightarrow>
   has_bandit (fst (choose_switch D G w bandit k cost_fn)) bandit k"
  by (cases bandit)
     (auto simp: has_bandit_def choose_switch_def ActiveBandits_get_def Let_def
        split: prod.splits option.splits)

lemma has_bandit_counts [simp]:
  "has_bandit (w\<lparr>chosen_counts_m := f\<rparr>) b k = has_bandit w b k"
  "has_bandit (w\<lparr>trace_m := tr\<rparr>) b k = has_bandit w b k"
  "has_bandit (w\<lparr>active_bandit_m := a\<rparr>) b k = has_bandit w b k"
  by (simp_all add: has_bandit_def split: AvailableBandits.splits)

lemma choose_has_bandit:
  "has_bandit w b k \<Longrightarrow> has_bandit (fst (DispatchInterface_choose D G w bandit k' cost_fn)) b k"
  using choose_switch_has_bandit [of w b k D G bandit k' cost_fn]
  by (auto simp: DispatchInterface_choose_def split: prod.splits sum.splits)

lemma choose_creates:
  "snd (DispatchInterface_choose D G w bandit k cost_fn) = Inr i \<Longrightarrow>
   has_bandit (fst (DispatchInterface_choose D G w bandit k cost_fn)) bandit k"
  using choose_switch_creates [of D G w bandit k cost_fn]
  by (auto simp: DispatchInterface_choose_def split: prod.splits sum.splits if_splits)

lemma update_has_bandit:
  "has_bandit w b k \<Longrightarrow> has_bandit (fst (DispatchInterface_update D G w bandit k' i d)) b k"
  by (cases bandit; cases b)
     (auto simp: has_bandit_def DispatchInterface_update_def ActiveBandits_get_at_def
        split: sum.splits option.splits)

lemma summarize_has_bandit:
  "has_bandit w b k \<Longrightarrow> has_bandit (fst (DispatchInterface_summarize w)) b k"
  by (auto simp: DispatchInterface_summarize_def Let_def
      split: AvailableBandits.splits prod.splits)

lemma new_has_bandit:
  "has_bandit w b k \<Longrightarrow> has_bandit (fst (SelectImplementation_new D G w args now)) b k"
  using choose_has_bandit [of w b k D G "DispatchInterface_active_bandit w" "key args" "\<lambda>_. costs args"]
  by (auto simp: SelectImplementation_new_def Let_def split: prod.splits sum.splits)

lemma finish_has_bandit:
  assumes "has_bandit w b k"
  shows "has_bandit (fst (SelectImplementation_finish D G w s end)) b k"
proof -
  have "has_bandit w' b k"
    if "DispatchInterface_update D G (w\<lparr>trace_m := tr\<rparr>) bandit k' i d = (w', res)"
    for tr bandit k' i d w' res
    using update_has_bandit [of "w\<lparr>trace_m := tr\<rparr>" b k D G bandit k' i d] that assms by simp
  with assms show ?thesis
    by (auto simp: SelectImplementation_finish_def Let_def split: prod.splits sum.splits)
qed

lemma after_call_has_bandit:
  assumes "c \<noteq> Reset" and "has_bandit w b k"
  shows "has_bandit (after_call D G w c) b k"
  using assms
  by (cases c)
     (simp_all add: choose_has_bandit update_has_bandit summarize_has_bandit new_has_bandit
        finish_has_bandit DispatchInterface_set_active_bandit_def)

lemma after_calls_has_bandit:
  assumes "Reset \<notin> set cs" and "has_bandit w b k"
  shows "has_bandit (after_calls D G w cs) b k"
  using assms
  by (induction cs arbitrary: w) (auto simp: after_call_has_bandit)

lemma new_session_measuring:
  assumes "SelectImplementation_new D G w args now = (w1, Inr s)"
    and "record_duration_m s"
  shows "has_bandit w1 (bandit_type_m s) (key args) \<and> entry_point_m s = args \<and>
         start_m s = now \<and> \<not> record_finished_m s"
  using assms
    choose_creates [of D G w "DispatchInterface_active_bandit w" "key args" "\<lambda>_. costs args"]
  by (auto simp: SelectImplementation_new_def new_session_def Let_def
      split: if_splits prod.splits sum.splits)

lemma finish_measuring:
  assumes "has_bandit w (bandit_type_m s) (key (entry_point_m s))"
    and "record_duration_m s" and "\<not> record_finished_m s"
  shows "snd (SelectImplementation_finish D G w s end) = (s\<lparr>record_finished_m := True\<rparr>, Inr ()) \<and>
         trace_m (fst (SelectImplementation_finish D G w s end)) =
           trace_m w @
           [ClockNow,
            BanditUpdate (key (entry_point_m s)) (choice_m s) (word_of_int (end - start_m s)),
            RegisterKey (key (entry_point_m s)),
            LogRecord (bandit_type_m s) (key (entry_point_m s)) (choice_m s)
              (word_of_int (end - start_m s))]"
  using assms
  by (cases "bandit_type_m s")
     (auto simp: SelectImplementation_finish_def DispatchInterface_update_def
        ActiveBandits_get_at_def has_bandit_def Let_def split: option.splits)

lemma finish_finished:
  assumes "record_duration_m s" and "record_finished_m s"
  shows "SelectImplementation_finish D G w s end =
         (w\<lparr>trace_m := trace_m w @ [ClockNow]\<rparr>, s, Inl FinishCalledTwice)"
  using assms by (simp add: SelectImplementation_finish_def)

text \<open>
  C5. Take a session that its constructor left Measuring, and let any calls that are
  not \<^verbatim>\<open>reset\<close> follow. The first \<^verbatim>\<open>finish()\<close> then returns,
  sets \<^verbatim>\<open>record_finished_\<close> (the session is Finished), and adds to the trace
  one clock read, one \<^verbatim>\<open>update\<close> of the bandit with the elapsed time, one
  \<^verbatim>\<open>register_key\<close> and one \<^verbatim>\<open>record\<close>. A second
  \<^verbatim>\<open>finish()\<close>, in whatever state \<open>w'\<close> it is called, throws
  "finish() called twice." after reading the clock and changes nothing else: no second
  update, no second log record.
\<close>

theorem finish_once:
  assumes "SelectImplementation_new D G w0 args now = (w1, Inr s)"
    and "state_of s = Measuring"
    and "Reset \<notin> set cs"
  shows
    "(let w2 = after_calls D G w1 cs;
          delta_ns = word_of_int (end - now);
          first = SelectImplementation_finish D G w2 s end;
          s' = s\<lparr>record_finished_m := True\<rparr>
      in snd first = (s', Inr ()) \<and>
         state_of s' = Finished \<and>
         trace_m (fst first) =
           trace_m w2 @
           [ClockNow, BanditUpdate (key args) (choice_m s) delta_ns, RegisterKey (key args),
            LogRecord (bandit_type_m s) (key args) (choice_m s) delta_ns] \<and>
         SelectImplementation_finish D G w' s' end' =
           (w'\<lparr>trace_m := trace_m w' @ [ClockNow]\<rparr>, s', Inl FinishCalledTwice))"
proof -
  from assms(2) have rec: "record_duration_m s"
    by (simp add: state_of_def split: if_splits)
  from new_session_measuring [OF assms(1) rec]
  have made: "has_bandit w1 (bandit_type_m s) (key args)"
    and ep: "entry_point_m s = args" and st: "start_m s = now"
    and fresh: "\<not> record_finished_m s"
    by simp_all
  from after_calls_has_bandit [OF assms(3) made]
  have "has_bandit (after_calls D G w1 cs) (bandit_type_m s) (key (entry_point_m s))"
    by (simp add: ep)
  from finish_measuring [OF this rec fresh, of D G "end"]
    finish_finished [of "s\<lparr>record_finished_m := True\<rparr>" D G w' end'] rec
  show ?thesis
    by (simp add: Let_def ep st state_of_def)
qed

theorem finish_once_witness:
  "SelectImplementation_new (const_bandit (Candidate K0)) (const_bandit (Candidate K2))
     (empty_world kRandomChoice) (example_site False [Candidate K0]) 100 =
     (fst (SelectImplementation_new (const_bandit (Candidate K0)) (const_bandit (Candidate K2))
             (empty_world kRandomChoice) (example_site False [Candidate K0]) 100),
      Inr example_session) \<and>
   state_of example_session = Measuring \<and>
   Reset \<notin> set [Choose kGaussian 7 (\<lambda>_. [1, 2]), Update kRandomChoice 7 (Candidate K0) 5,
                  SetActiveBandit kNone] \<and>
   snd (SelectImplementation_finish (const_bandit (Candidate K0)) (const_bandit (Candidate K2))
          (after_calls (const_bandit (Candidate K0)) (const_bandit (Candidate K2))
             (fst (SelectImplementation_new (const_bandit (Candidate K0)) (const_bandit (Candidate K2))
                     (empty_world kRandomChoice) (example_site False [Candidate K0]) 100))
             [Choose kGaussian 7 (\<lambda>_. [1, 2]), Update kRandomChoice 7 (Candidate K0) 5,
              SetActiveBandit kNone])
          example_session 250) =
     (example_session\<lparr>record_finished_m := True\<rparr>, Inr ()) \<and>
   SelectImplementation_finish (const_bandit (Candidate K0)) (const_bandit (Candidate K2))
     (empty_world kNone) (example_session\<lparr>record_finished_m := True\<rparr>) 300 =
     ((empty_world kNone)\<lparr>trace_m := trace_m (empty_world kNone) @ [ClockNow]\<rparr>,
      example_session\<lparr>record_finished_m := True\<rparr>, Inl FinishCalledTwice)"
proof -
  let ?D = "const_bandit (Candidate K0)"
  let ?G = "const_bandit (Candidate K2)"
  let ?new = "SelectImplementation_new ?D ?G (empty_world kRandomChoice)
                (example_site False [Candidate K0]) 100"
  have made: "?new = (fst ?new, Inr example_session)"
    by (simp add: prod_eq_iff eval_defs example_session_def)
  have measuring: "state_of example_session = Measuring"
    by (simp add: state_of_def example_session_def)
  have no_reset: "Reset \<notin> set [Choose kGaussian 7 (\<lambda>_. [1, 2]),
      Update kRandomChoice 7 (Candidate K0) 5, SetActiveBandit kNone]"
    by simp
  from finish_once [OF made measuring no_reset, of 250 "empty_world kNone" 300]
    made measuring
  show ?thesis
    by (simp add: Let_def prod_eq_iff)
qed

text \<open>
  C5, as stated, fails when \<^verbatim>\<open>reset()\<close> runs between the constructor and
  \<^verbatim>\<open>finish()\<close>: the session below reached Measuring, yet its first
  \<^verbatim>\<open>finish()\<close> throws from \<^verbatim>\<open>bandits_.at(key)\<close>; the clock was
  read, but there is no update and no log record.
\<close>

theorem finish_after_reset_counterexample:
  "snd (SelectImplementation_new (const_bandit (Candidate K0)) (const_bandit (Candidate K2))
          (empty_world kRandomChoice) (example_site False [Candidate K0]) 100) =
     Inr example_session \<and>
   state_of example_session = Measuring \<and>
   snd (SelectImplementation_finish (const_bandit (Candidate K0)) (const_bandit (Candidate K2))
          (after_calls (const_bandit (Candidate K0)) (const_bandit (Candidate K2))
             (fst (SelectImplementation_new (const_bandit (Candidate K0)) (const_bandit (Candidate K2))
                     (empty_world kRandomChoice) (example_site False [Candidate K0]) 100))
             [Reset])
          example_session 250) =
     (example_session\<lparr>record_finished_m := True\<rparr>, Inl OutOfRange) \<and>
   trace_m (fst (SelectImplementation_finish (const_bandit (Candidate K0)) (const_bandit (Candidate K2))
          (after_calls (const_bandit (Candidate K0)) (const_bandit (Candidate K2))
             (fst (SelectImplementation_new (const_bandit (Candidate K0)) (const_bandit (Candidate K2))
                     (empty_world kRandomChoice) (example_site False [Candidate K0]) 100))
             [Reset])
          example_session 250)) =
     [CostFn 7, BanditCreate 7 0, BanditChoose 7, ClockNow, ClockNow]"
  by (simp add: eval_defs example_session_def state_of_def)

subsection \<open>Creating an instance once\<close>

lemma registry_of_frame [simp]:
  "registry_of (w\<lparr>chosen_counts_m := f\<rparr>) b = registry_of w b"
  "registry_of (w\<lparr>trace_m := tr\<rparr>) b = registry_of w b"
  "registry_of (w\<lparr>active_bandit_m := a\<rparr>) b = registry_of w b"
  by (simp_all add: registry_of_def split: AvailableBandits.splits)

lemma has_bandit_registry:
  "b \<noteq> kNone \<Longrightarrow> has_bandit w b k = (bandits_m (registry_of w b) k \<noteq> None)"
  by (cases b) (simp_all add: has_bandit_def registry_of_def)

lemma choose_switch_keys:
  assumes "bandits_m (registry_of w b) k \<noteq> None"
  shows "count_list (ordered_keys_m (registry_of (fst (choose_switch D G w bandit k' cost_fn)) b)) k =
         count_list (ordered_keys_m (registry_of w b)) k"
  using assms
  by (cases bandit; cases b)
     (auto simp: registry_of_def choose_switch_def ActiveBandits_get_def Let_def
        split: prod.splits option.splits)

lemma choose_keys:
  assumes "bandits_m (registry_of w b) k \<noteq> None"
  shows "count_list (ordered_keys_m (registry_of (fst (DispatchInterface_choose D G w bandit k' cost_fn)) b)) k =
         count_list (ordered_keys_m (registry_of w b)) k"
  using choose_switch_keys [OF assms, of D G bandit k' cost_fn]
  by (auto simp: DispatchInterface_choose_def split: prod.splits sum.splits)

lemma update_keys:
  "ordered_keys_m (registry_of (fst (DispatchInterface_update D G w bandit k' i d)) b) =
   ordered_keys_m (registry_of w b)"
  by (cases bandit; cases b)
     (auto simp: registry_of_def DispatchInterface_update_def split: sum.splits)

lemma summarize_keys:
  "registry_of (fst (DispatchInterface_summarize w)) b = registry_of w b"
  by (auto simp: DispatchInterface_summarize_def Let_def
      split: AvailableBandits.splits prod.splits)

lemma new_keys:
  assumes "bandits_m (registry_of w b) k \<noteq> None"
  shows "count_list (ordered_keys_m (registry_of (fst (SelectImplementation_new D G w args now)) b)) k =
         count_list (ordered_keys_m (registry_of w b)) k"
  using choose_keys [OF assms, of D G "DispatchInterface_active_bandit w" "key args" "\<lambda>_. costs args"]
  by (auto simp: SelectImplementation_new_def Let_def split: prod.splits sum.splits)

lemma finish_keys:
  "ordered_keys_m (registry_of (fst (SelectImplementation_finish D G w s end)) b) =
   ordered_keys_m (registry_of w b)"
proof -
  have "ordered_keys_m (registry_of w' b) = ordered_keys_m (registry_of w b)"
    if "DispatchInterface_update D G (w\<lparr>trace_m := tr\<rparr>) bandit k' i d = (w', res)"
    for tr bandit k' i d w' res
    using update_keys [of D G "w\<lparr>trace_m := tr\<rparr>" bandit k' i d b] that by simp
  then show ?thesis
    by (auto simp: SelectImplementation_finish_def Let_def split: prod.splits sum.splits)
qed

lemma after_call_keys:
  assumes "c \<noteq> Reset" and "bandits_m (registry_of w b) k \<noteq> None"
  shows "count_list (ordered_keys_m (registry_of (after_call D G w c) b)) k =
         count_list (ordered_keys_m (registry_of w b)) k"
  using assms
  by (cases c)
     (simp_all add: choose_keys update_keys summarize_keys new_keys finish_keys
        DispatchInterface_set_active_bandit_def)

lemma after_calls_keys:
  assumes "Reset \<notin> set cs" and "b \<noteq> kNone" and "bandits_m (registry_of w b) k \<noteq> None"
  shows "bandits_m (registry_of (after_calls D G w cs) b) k \<noteq> None \<and>
         count_list (ordered_keys_m (registry_of (after_calls D G w cs) b)) k =
           count_list (ordered_keys_m (registry_of w b)) k"
  using assms(1,3)
proof (induction cs arbitrary: w)
  case Nil
  then show ?case by simp
next
  case (Cons c cs)
  then have c: "c \<noteq> Reset" and cs: "Reset \<notin> set cs"
    by auto
  from Cons.prems(2) assms(2) have "has_bandit w b k"
    by (simp add: has_bandit_registry)
  from after_call_has_bandit [OF c this, of D G] assms(2)
  have kept: "bandits_m (registry_of (after_call D G w c) b) k \<noteq> None"
    by (simp add: has_bandit_registry)
  from Cons.IH [OF cs kept] after_call_keys [OF c Cons.prems(2), of D G] show ?case
    by simp
qed

lemma first_choose:
  assumes "bandit \<noteq> kNone" and "bandits_m (registry_of w bandit) k = None"
  shows "trace_m (fst (DispatchInterface_choose D G w bandit k cost_fn)) =
           trace_m w @ [CostFn k, BanditCreate k (next_seed_m (registry_of w bandit)), BanditChoose k] \<and>
         registry_of (fst (DispatchInterface_choose D G w bandit k cost_fn)) bandit =
           (registry_of w bandit)
             \<lparr>ordered_keys_m := ordered_keys_m (registry_of w bandit) @ [k],
              bandits_m := (bandits_m (registry_of w bandit))
                (k \<mapsto> snd (bandit_choose (variant_of D G bandit)
                     (construct (variant_of D G bandit) (cost_fn ()) (next_seed_m (registry_of w bandit))))),
              next_seed_m := next_seed_m (registry_of w bandit) + 1\<rparr>"
  using assms
  by (cases bandit)
     (auto simp: registry_of_def variant_of_def DispatchInterface_choose_def choose_switch_def
        ActiveBandits_get_def Let_def split: prod.splits)

lemma later_choose:
  assumes "bandit \<noteq> kNone" and "bandits_m (registry_of w bandit) k \<noteq> None"
  shows "trace_m (fst (DispatchInterface_choose D G w bandit k cost_fn)) = trace_m w @ [BanditChoose k] \<and>
         ordered_keys_m (registry_of (fst (DispatchInterface_choose D G w bandit k cost_fn)) bandit) =
           ordered_keys_m (registry_of w bandit) \<and>
         next_seed_m (registry_of (fst (DispatchInterface_choose D G w bandit k cost_fn)) bandit) =
           next_seed_m (registry_of w bandit)"
  using assms
  by (cases bandit)
     (auto simp: registry_of_def DispatchInterface_choose_def choose_switch_def
        ActiveBandits_get_def Let_def split: prod.splits)

text \<open>
  C1. Take a registry (the random or the Gaussian one) that has no instance for a key.
  The \<^verbatim>\<open>get(key, cost_fn)\<close> that the first \<^verbatim>\<open>choose\<close> for the
  key makes calls \<^verbatim>\<open>cost_fn\<close> once, constructs one instance with the next
  seed, stores it under the key and appends the key to \<^verbatim>\<open>ordered_keys_\<close>.
  After any calls that follow and are not \<^verbatim>\<open>reset\<close> (other
  \<^verbatim>\<open>choose\<close> and \<^verbatim>\<open>update\<close> calls on either registry, sessions
  constructed and finished), the registry still holds an instance for the key:
  \<^verbatim>\<open>get(key, cost_fn')\<close> returns the stored instance and changes neither
  the registry nor the trace, so a later \<^verbatim>\<open>choose\<close> for the key adds the
  bandit's \<^verbatim>\<open>choose()\<close> to the trace and no call of the cost estimator,
  assigns no seed, and the key is in \<^verbatim>\<open>ordered_keys_\<close> once more than
  before the first call.
\<close>

theorem get_creates_once:
  assumes "bandit \<noteq> kNone"
    and "bandits_m (registry_of w bandit) k = None"
    and "Reset \<notin> set cs"
  shows
    "(let T = variant_of D G bandit;
          r = registry_of w bandit;
          b = construct T (cost_fn ()) (next_seed_m r);
          w1 = fst (DispatchInterface_choose D G w bandit k cost_fn);
          w2 = after_calls D G w1 cs;
          r2 = registry_of w2 bandit;
          w3 = fst (DispatchInterface_choose D G w2 bandit k cost_fn')
      in ActiveBandits_get T r (trace_m w) k cost_fn =
           (r\<lparr>ordered_keys_m := ordered_keys_m r @ [k],
              bandits_m := (bandits_m r)(k \<mapsto> b),
              next_seed_m := next_seed_m r + 1\<rparr>,
            trace_m w @ [CostFn k, BanditCreate k (next_seed_m r)], b) \<and>
         trace_m w1 = trace_m w @ [CostFn k, BanditCreate k (next_seed_m r), BanditChoose k] \<and>
         registry_of w1 bandit =
           r\<lparr>ordered_keys_m := ordered_keys_m r @ [k],
             bandits_m := (bandits_m r)(k \<mapsto> snd (bandit_choose T b)),
             next_seed_m := next_seed_m r + 1\<rparr> \<and>
         (case bandits_m r2 k of
            None \<Rightarrow> False
          | Some b2 \<Rightarrow> ActiveBandits_get T r2 (trace_m w2) k cost_fn' = (r2, trace_m w2, b2)) \<and>
         trace_m w3 = trace_m w2 @ [BanditChoose k] \<and>
         next_seed_m (registry_of w3 bandit) = next_seed_m r2 \<and>
         count_list (ordered_keys_m (registry_of w3 bandit)) k =
           count_list (ordered_keys_m r) k + 1)"
proof -
  let ?T = "variant_of D G bandit"
  let ?r = "registry_of w bandit"
  let ?w1 = "fst (DispatchInterface_choose D G w bandit k cost_fn)"
  let ?w2 = "after_calls D G ?w1 cs"
  note first = first_choose [OF assms(1,2), of D G cost_fn]
  from first have stored: "bandits_m (registry_of ?w1 bandit) k \<noteq> None"
    and keys1: "count_list (ordered_keys_m (registry_of ?w1 bandit)) k =
                count_list (ordered_keys_m ?r) k + 1"
    by simp_all
  from after_calls_keys [OF assms(3,1) stored, of D G]
  have kept: "bandits_m (registry_of ?w2 bandit) k \<noteq> None"
    and keys2: "count_list (ordered_keys_m (registry_of ?w2 bandit)) k =
                count_list (ordered_keys_m (registry_of ?w1 bandit)) k"
    by simp_all
  from kept obtain b2 where b2: "bandits_m (registry_of ?w2 bandit) k = Some b2"
    by auto
  note again = get_present [OF b2, of ?T "trace_m ?w2" cost_fn']
  note later = later_choose [OF assms(1) kept, of D G cost_fn']
  from assms(2) first again later keys1 keys2 b2 show ?thesis
    by (simp add: Let_def get_absent)
qed

theorem get_creates_once_witness:
  "kRandomChoice \<noteq> kNone \<and>
   bandits_m (registry_of (empty_world kRandomChoice) kRandomChoice) 7 = None \<and>
   Reset \<notin> set [Update kRandomChoice 7 (Candidate K1) 5, Choose kRandomChoice 8 (\<lambda>_. [5]),
                  Choose kGaussian 7 (\<lambda>_. [6]),
                  NewSession (example_site False [Candidate K1]) 100] \<and>
   (let w1 = fst (DispatchInterface_choose (const_bandit (Candidate K1)) (const_bandit (Candidate K2))
                    (empty_world kRandomChoice) kRandomChoice 7 (\<lambda>_. [10, 20, 30]));
        w2 = after_calls (const_bandit (Candidate K1)) (const_bandit (Candidate K2)) w1
               [Update kRandomChoice 7 (Candidate K1) 5, Choose kRandomChoice 8 (\<lambda>_. [5]),
                Choose kGaussian 7 (\<lambda>_. [6]),
                NewSession (example_site False [Candidate K1]) 100];
        w3 = fst (DispatchInterface_choose (const_bandit (Candidate K1)) (const_bandit (Candidate K2))
                    w2 kRandomChoice 7 (\<lambda>_. [1]))
    in trace_m w1 = [CostFn 7, BanditCreate 7 0, BanditChoose 7] \<and>
       trace_m w3 = trace_m w2 @ [BanditChoose 7] \<and>
       count_list (ordered_keys_m (registry_of w3 kRandomChoice)) 7 = 1)"
  using get_creates_once [of kRandomChoice "empty_world kRandomChoice" 7
      "[Update kRandomChoice 7 (Candidate K1) 5, Choose kRandomChoice 8 (\<lambda>_. [5]),
        Choose kGaussian 7 (\<lambda>_. [6]), NewSession (example_site False [Candidate K1]) 100]"
      "const_bandit (Candidate K1)" "const_bandit (Candidate K2)" "\<lambda>_. [10, 20, 30]" "\<lambda>_. [1]"]
  by (simp add: Let_def registry_of_def empty_world_def empty_registry_def)

end
